theory Spec2Isabelle
  imports Main
begin

section \<open>The process and its environment\<close>

text \<open>
  The program is \<^verbatim>\<open>C-Shell/c_shell.c\<close>: a read, tokenize, dispatch loop. Its
  functions read standard input, write the two output streams, change the working
  directory and create processes, so each one is modelled as a function from the state
  of the process (\<open>world\<close>) to a \<open>result\<close>, which says how the call ended and in which
  state.

  A C string is a \<open>string\<close>: the characters before the terminating NUL. A character is
  a byte, as \<open>char\<close> is. Only the line buffer, which \<^verbatim>\<open>getchar\<close> can fill with any
  byte, is kept as raw bytes with its terminator (\<open>c_str\<close> reads it as a C string).

  The log \<open>syscalls\<close> is ghost state: it records the process-control calls the process
  has made, so that "no child was created" and "the parent waited" can be stated.
\<close>

datatype wstatus = WExited nat | WSignaled nat | WStopped nat

datatype fork_result = ForkFailed string | InChild | InParent nat

datatype wait_result = Reported wstatus | WaitFailed

datatype wait_rest = Unchanged | NoChild

datatype syscall =
    Fork fork_result
  | Waitpid nat wstatus
  | WaitpidFailed nat
  | Chdir string
  | Execvp string "string list"

record world =
  cwd :: string
  stdin :: string
  stdout :: string
  stderr :: string
  syscalls :: "syscall list"

text \<open>
  How a call ends: it returns a value; or the process ends in \<^verbatim>\<open>exit\<close> with a code;
  or \<^verbatim>\<open>execvp\<close> replaces the process image; or the process blocks for ever in
  \<^verbatim>\<open>waitpid\<close>; or it runs for ever through the wait loop, every call of
  \<^verbatim>\<open>waitpid\<close> failing (the state is the one after the first of these calls); or the
  behaviour is undefined in C (a read past the NULL sentinel of the argument array, a
  signed overflow of an \<^verbatim>\<open>int\<close>).
\<close>

datatype 'a result =
    Returns 'a world
  | Exits int world
  | Execs string "string list" world
  | Blocks world
  | Spins world
  | Undefined

text \<open>
  The answers of the operating system during one iteration of the main loop. Each
  iteration calls \<^verbatim>\<open>shh_read_line\<close>, \<^verbatim>\<open>shh_split_line\<close> and \<^verbatim>\<open>shh_execute\<close>
  once, so it makes at most one \<^verbatim>\<open>chdir\<close>, one \<^verbatim>\<open>fork\<close> and one \<^verbatim>\<open>execvp\<close>,
  and within one call the sizes requested from the allocator are all different.
  \<^item> \<open>alloc_line n\<close>, \<open>alloc_toks n\<close>: whether \<^verbatim>\<open>malloc\<close>/\<^verbatim>\<open>realloc\<close> of \<open>n\<close> bytes
    succeeds in \<^verbatim>\<open>shh_read_line\<close>, in \<^verbatim>\<open>shh_split_line\<close>;
  \<^item> \<open>sys_chdir d p\<close>: \<^verbatim>\<open>chdir(p)\<close> in the directory \<open>d\<close>: the directory that \<open>p\<close> names
    there, or the text of \<^verbatim>\<open>strerror(errno)\<close> when the call fails;
  \<^item> \<open>sys_fork\<close>: what \<^verbatim>\<open>fork\<close> returns, which also says whether the model follows
    the parent or the child;
  \<^item> \<open>sys_execvp f args\<close>: \<open>None\<close> when the image is replaced, the text of
    \<^verbatim>\<open>strerror(errno)\<close> when \<^verbatim>\<open>execvp\<close> returns \<open>-1\<close>;
  \<^item> \<open>sys_wait\<close>: what the successive calls of
    \<^verbatim>\<open>waitpid(pid, &status, WUNTRACED)\<close> do: \<open>Reported s\<close> writes the state change \<open>s\<close>
    of the child to \<^verbatim>\<open>status\<close> and returns its pid; \<open>WaitFailed\<close> returns \<open>-1\<close> and
    leaves \<^verbatim>\<open>status\<close> as it was (\<^verbatim>\<open>ECHILD\<close>, as when \<^verbatim>\<open>SIGCHLD\<close> is ignored
    and the child is gone);
  \<^item> \<open>sys_wait_rest\<close>: the calls after those: \<open>Unchanged\<close>, the child changes state no
    more and \<^verbatim>\<open>waitpid\<close> does not return; \<open>NoChild\<close>, every further call fails;
  \<^item> \<open>sys_status0\<close>: what the variable \<^verbatim>\<open>status\<close> of \<^verbatim>\<open>shh_launch\<close> holds before
    a call has written it. The source does not initialise it, so this is any value; the
    loop reads of it only whether it looks exited or signaled.
\<close>

record env =
  alloc_line :: "nat \<Rightarrow> bool"
  alloc_toks :: "nat \<Rightarrow> bool"
  sys_chdir :: "string \<Rightarrow> string \<Rightarrow> string + string"
  sys_fork :: fork_result
  sys_execvp :: "string \<Rightarrow> string list \<Rightarrow> string option"
  sys_wait :: "wait_result list"
  sys_wait_rest :: wait_rest
  sys_status0 :: wstatus

definition EXIT_SUCCESS :: int where
  "EXIT_SUCCESS = 0"

definition EXIT_FAILURE :: int where
  "EXIT_FAILURE = 1"

definition INT_MAX :: int where
  "INT_MAX = 2147483647"

definition NUL :: char where
  "NUL = CHR 0x00"

definition newline :: char where
  "newline = CHR 0x0A"

text \<open>\<^verbatim>\<open>fprintf(stderr, ...)\<close>, \<^verbatim>\<open>printf(...)\<close> and \<^verbatim>\<open>perror(s)\<close>, the last with
  the text of \<^verbatim>\<open>strerror(errno)\<close> that the failed call left.\<close>

definition eprint :: "string \<Rightarrow> world \<Rightarrow> world" where
  "eprint s w = w\<lparr>stderr := stderr w @ s\<rparr>"

definition print :: "string \<Rightarrow> world \<Rightarrow> world" where
  "print s w = w\<lparr>stdout := stdout w @ s\<rparr>"

definition perror :: "string \<Rightarrow> string \<Rightarrow> world \<Rightarrow> world" where
  "perror s msg w = eprint (s @ '': '' @ msg @ [newline]) w"

definition allocation_error :: string where
  "allocation_error = ''shh: allocation error'' @ [newline]"

section \<open>The line reader\<close>

definition SHH_RL_BUFSIZE :: int where
  "SHH_RL_BUFSIZE = 1024"

text \<open>
  The \<^verbatim>\<open>while (1)\<close> loop of \<^verbatim>\<open>shh_read_line\<close>. \<open>buffer\<close> holds the bytes written so
  far, so \<^verbatim>\<open>position\<close> is its length; the last argument is what \<^verbatim>\<open>getchar\<close> has
  still to deliver, the empty list being end-of-stream. The result is the buffer with
  the terminator written at \<^verbatim>\<open>position\<close>.
\<close>

fun read_loop :: "(nat \<Rightarrow> bool) \<Rightarrow> world \<Rightarrow> int \<Rightarrow> string \<Rightarrow> string \<Rightarrow> string result" where
  "read_loop alloc w bufsize buffer [] = Returns (buffer @ [NUL]) (w\<lparr>stdin := []\<rparr>)"
| "read_loop alloc w bufsize buffer (c # cs) =
     (if c = newline then Returns (buffer @ [NUL]) (w\<lparr>stdin := cs\<rparr>)
      else if int (length (buffer @ [c])) \<ge> bufsize then
        (if bufsize + SHH_RL_BUFSIZE > INT_MAX then Undefined
         else if \<not> alloc (nat (bufsize + SHH_RL_BUFSIZE))
           then Exits EXIT_FAILURE (eprint allocation_error (w\<lparr>stdin := cs\<rparr>))
         else read_loop alloc w (bufsize + SHH_RL_BUFSIZE) (buffer @ [c]) cs)
      else read_loop alloc w bufsize (buffer @ [c]) cs)"

definition shh_read_line :: "(nat \<Rightarrow> bool) \<Rightarrow> world \<Rightarrow> string result" where
  "shh_read_line alloc w =
     (if \<not> alloc (nat SHH_RL_BUFSIZE) then Exits EXIT_FAILURE (eprint allocation_error w)
      else read_loop alloc w SHH_RL_BUFSIZE [] (stdin w))"

definition c_str :: "string \<Rightarrow> string" where
  "c_str bytes = takeWhile (\<lambda>c. c \<noteq> NUL) bytes"

section \<open>The tokenizer\<close>

definition SHH_TOK_BUFSIZE :: int where
  "SHH_TOK_BUFSIZE = 1024"

definition SHH_TOK_DELIM :: string where
  "SHH_TOK_DELIM = [CHR '' '', CHR 0x09, CHR 0x0A, CHR 0x0D, CHR 0x07]"

text \<open>\<^verbatim>\<open>sizeof(char*)\<close>, on a platform with 64-bit pointers.\<close>

definition sizeof_ptr :: nat where
  "sizeof_ptr = 8"

text \<open>
  \<^verbatim>\<open>strtok\<close> of the C library (ISO C 7.24.5.8), on the string still to be scanned:
  skip the characters of \<open>delim\<close>; at the end of the string there is no token; otherwise
  the token runs up to the next character of \<open>delim\<close>, which is overwritten by NUL, and
  the scan resumes after it. The result is the token and the string the next call
  \<^verbatim>\<open>strtok(NULL, delim)\<close> scans.
\<close>

definition strtok :: "string \<Rightarrow> string \<Rightarrow> (string \<times> string) option" where
  "strtok s delim =
     (let start = dropWhile (\<lambda>c. c \<in> set delim) s in
      if start = [] then None
      else Some (takeWhile (\<lambda>c. c \<notin> set delim) start,
                 drop 1 (dropWhile (\<lambda>c. c \<notin> set delim) start)))"

fun strtok_measure :: "(string \<times> string) option \<Rightarrow> nat" where
  "strtok_measure None = 0"
| "strtok_measure (Some (token, rest)) = Suc (length rest)"

lemma strtok_shorter: "strtok s delim = Some (token, rest) \<Longrightarrow> length rest < length s"
proof -
  assume a: "strtok s delim = Some (token, rest)"
  let ?start = "dropWhile (\<lambda>c. c \<in> set delim) s"
  from a have ne: "?start \<noteq> []" and r: "rest = drop 1 (dropWhile (\<lambda>c. c \<notin> set delim) ?start)"
    by (auto simp: strtok_def Let_def split: if_splits)
  have "length rest \<le> length ?start - 1"
    unfolding r using length_dropWhile_le [of "\<lambda>c. c \<notin> set delim" ?start] by simp
  moreover have "length ?start \<le> length s"
    by (rule length_dropWhile_le)
  moreover from ne have "0 < length ?start" by simp
  ultimately show ?thesis by linarith
qed

text \<open>
  The \<^verbatim>\<open>while (token != NULL)\<close> loop of \<^verbatim>\<open>shh_split_line\<close>. \<open>tokens\<close> holds the
  entries written so far, so \<^verbatim>\<open>position\<close> is its length; the last argument is what
  the latest \<^verbatim>\<open>strtok\<close> returned. The result is the array with the NULL entry written
  at \<^verbatim>\<open>position\<close>: \<open>Some t\<close> is a pointer to the token \<open>t\<close>, \<open>None\<close> is NULL.
\<close>

function split_loop ::
  "(nat \<Rightarrow> bool) \<Rightarrow> world \<Rightarrow> int \<Rightarrow> string option list \<Rightarrow> (string \<times> string) option
     \<Rightarrow> string option list result" where
  "split_loop alloc w bufsize tokens None = Returns (tokens @ [None]) w"
| "split_loop alloc w bufsize tokens (Some (token, rest)) =
     (if int (length (tokens @ [Some token])) \<ge> bufsize then
        (if bufsize + SHH_TOK_BUFSIZE > INT_MAX then Undefined
         else if \<not> alloc (sizeof_ptr * nat (bufsize + SHH_TOK_BUFSIZE))
           then Exits EXIT_FAILURE (eprint allocation_error w)
         else split_loop alloc w (bufsize + SHH_TOK_BUFSIZE) (tokens @ [Some token])
                (strtok rest SHH_TOK_DELIM))
      else split_loop alloc w bufsize (tokens @ [Some token]) (strtok rest SHH_TOK_DELIM))"
  by pat_completeness auto
termination
proof (relation "measure (\<lambda>(alloc, w, bufsize, tokens, tok). strtok_measure tok)")
  show "wf (measure (\<lambda>(alloc, w, bufsize, tokens, tok). strtok_measure tok))"
    by simp
next
  fix alloc :: "nat \<Rightarrow> bool" and w :: world and bufsize :: int
    and tokens :: "string option list" and token rest :: string
  show "((alloc, w, bufsize + SHH_TOK_BUFSIZE, tokens @ [Some token], strtok rest SHH_TOK_DELIM),
         (alloc, w, bufsize, tokens, Some (token, rest)))
        \<in> measure (\<lambda>(alloc, w, bufsize, tokens, tok). strtok_measure tok)"
    by (cases "strtok rest SHH_TOK_DELIM") (auto dest: strtok_shorter)
next
  fix alloc :: "nat \<Rightarrow> bool" and w :: world and bufsize :: int
    and tokens :: "string option list" and token rest :: string
  show "((alloc, w, bufsize, tokens @ [Some token], strtok rest SHH_TOK_DELIM),
         (alloc, w, bufsize, tokens, Some (token, rest)))
        \<in> measure (\<lambda>(alloc, w, bufsize, tokens, tok). strtok_measure tok)"
    by (cases "strtok rest SHH_TOK_DELIM") (auto dest: strtok_shorter)
qed

definition shh_split_line :: "(nat \<Rightarrow> bool) \<Rightarrow> world \<Rightarrow> string \<Rightarrow> string option list result" where
  "shh_split_line alloc w line =
     (if \<not> alloc (sizeof_ptr * nat SHH_TOK_BUFSIZE)
        then Exits EXIT_FAILURE (eprint allocation_error w)
      else split_loop alloc w SHH_TOK_BUFSIZE [] (strtok line SHH_TOK_DELIM))"

text \<open>The tokens of a NULL-terminated argument array: the entries before the first NULL.\<close>

fun argv :: "string option list \<Rightarrow> string list" where
  "argv [] = []"
| "argv (None # _) = []"
| "argv (Some t # ts) = t # argv ts"

section \<open>Builtin commands and the external launch\<close>

definition log_call :: "syscall \<Rightarrow> world \<Rightarrow> world" where
  "log_call c w = w\<lparr>syscalls := syscalls w @ [c]\<rparr>"

text \<open>Sequencing: what follows a call runs only when the call returns.\<close>

fun and_then :: "'a result \<Rightarrow> ('a \<Rightarrow> world \<Rightarrow> 'b result) \<Rightarrow> 'b result" where
  "and_then (Returns a w) f = f a w"
| "and_then (Exits code w) f = Exits code w"
| "and_then (Execs file args w) f = Execs file args w"
| "and_then (Blocks w) f = Blocks w"
| "and_then (Spins w) f = Spins w"
| "and_then Undefined f = Undefined"

text \<open>
  \<^verbatim>\<open>strcmp\<close> of the C library: the sign of the first difference, the bytes compared as
  unsigned (the standard fixes the sign only; the model returns \<open>-1\<close>, \<open>0\<close> or \<open>1\<close>).
\<close>

fun strcmp :: "string \<Rightarrow> string \<Rightarrow> int" where
  "strcmp [] [] = 0"
| "strcmp [] (y # ys) = - 1"
| "strcmp (x # xs) [] = 1"
| "strcmp (x # xs) (y # ys) =
     (if x = y then strcmp xs ys
      else if (of_char x :: nat) < of_char y then - 1 else 1)"

definition builtin_str :: "string list" where
  "builtin_str = [''cd'', ''help'', ''exit'']"

definition shh_num_builtins :: nat where
  "shh_num_builtins = length builtin_str"

text \<open>
  A handler takes the argument array, here the list of its tokens (the entries before
  the NULL sentinel): \<^verbatim>\<open>args[i]\<close> is the \<open>i\<close>-th token for \<open>i\<close> below the length, NULL
  at the length, and a read beyond that is undefined.
\<close>

type_synonym handler = "env \<Rightarrow> world \<Rightarrow> string list \<Rightarrow> int result"

definition shh_cd :: handler where
  "shh_cd e w args =
     (case args of
        [] \<Rightarrow> Undefined
      | [_] \<Rightarrow> Returns 1
          (eprint (''shh: expected argument to '' @ [CHR 0x22] @ ''cd'' @ [CHR 0x22, newline]) w)
      | _ # dir # _ \<Rightarrow>
          (case sys_chdir e (cwd w) dir of
             Inr d \<Rightarrow> Returns 1 (log_call (Chdir dir) (w\<lparr>cwd := d\<rparr>))
           | Inl msg \<Rightarrow> Returns 1 (perror ''shh'' msg (log_call (Chdir dir) w))))"

definition shh_help :: handler where
  "shh_help e w args =
     (let w1 = print (''AkG's SHH '' @ [newline]) w;
          w2 = print (''Type program names and arguments, and hit enter.'' @ [newline]) w1;
          w3 = print (''The following are built in:'' @ [newline]) w2;
          w4 = foldl (\<lambda>w' i. print (''    '' @ builtin_str ! i @ [newline]) w') w3
                 [0 ..< shh_num_builtins];
          w5 = print (''Use the man command for information on other programs.'' @ [newline]) w4
      in Returns 1 w5)"

definition shh_exit :: handler where
  "shh_exit e w args = Returns 0 w"

definition builtin_func :: "handler list" where
  "builtin_func = [shh_cd, shh_help, shh_exit]"

fun WIFEXITED :: "wstatus \<Rightarrow> bool" where
  "WIFEXITED (WExited code) = True"
| "WIFEXITED (WSignaled sig) = False"
| "WIFEXITED (WStopped sig) = False"

fun WIFSIGNALED :: "wstatus \<Rightarrow> bool" where
  "WIFSIGNALED (WExited code) = False"
| "WIFSIGNALED (WSignaled sig) = True"
| "WIFSIGNALED (WStopped sig) = False"

text \<open>
  The \<^verbatim>\<open>do ... while (!WIFEXITED(status) && !WIFSIGNALED(status))\<close> loop of the
  parent: what \<^verbatim>\<open>waitpid\<close> has still to do, and what \<^verbatim>\<open>status\<close> holds. The loop
  never reads \<^verbatim>\<open>wpid\<close>, so after a call that fails it tests the value that
  \<^verbatim>\<open>status\<close> had before the call.
\<close>

fun waitpid_loop :: "nat \<Rightarrow> wait_rest \<Rightarrow> wait_result list \<Rightarrow> wstatus \<Rightarrow> world \<Rightarrow> unit result" where
  "waitpid_loop pid rest [] status w =
     (case rest of
        Unchanged \<Rightarrow> Blocks w
      | NoChild \<Rightarrow>
          if \<not> WIFEXITED status \<and> \<not> WIFSIGNALED status
            then Spins (log_call (WaitpidFailed pid) w)
          else Returns () (log_call (WaitpidFailed pid) w))"
| "waitpid_loop pid rest (Reported written # later) status w =
     (if \<not> WIFEXITED written \<and> \<not> WIFSIGNALED written
        then waitpid_loop pid rest later written (log_call (Waitpid pid written) w)
      else Returns () (log_call (Waitpid pid written) w))"
| "waitpid_loop pid rest (WaitFailed # later) status w =
     (if \<not> WIFEXITED status \<and> \<not> WIFSIGNALED status
        then waitpid_loop pid rest later status (log_call (WaitpidFailed pid) w)
      else Returns () (log_call (WaitpidFailed pid) w))"

definition shh_launch :: handler where
  "shh_launch e w args =
     (case sys_fork e of
        InChild \<Rightarrow>
          (case args of
             [] \<Rightarrow> Undefined
           | file # _ \<Rightarrow>
               (case sys_execvp e file args of
                  None \<Rightarrow> Execs file args (log_call (Execvp file args) (log_call (Fork InChild) w))
                | Some msg \<Rightarrow>
                    Exits EXIT_FAILURE
                      (perror ''shh'' msg (log_call (Execvp file args) (log_call (Fork InChild) w)))))
      | ForkFailed msg \<Rightarrow> Returns 1 (perror ''shh'' msg (log_call (Fork (ForkFailed msg)) w))
      | InParent pid \<Rightarrow>
          and_then
            (waitpid_loop pid (sys_wait_rest e) (sys_wait e) (sys_status0 e)
               (log_call (Fork (InParent pid)) w))
            (\<lambda>_ w'. Returns 1 w'))"

section \<open>Dispatch and the main loop\<close>

text \<open>
  The \<^verbatim>\<open>for (i = 0; i < shh_num_builtins(); i++)\<close> loop of \<^verbatim>\<open>shh_execute\<close>, from
  index \<open>i\<close>, and the launch that follows it. It runs only when \<^verbatim>\<open>args[0]\<close> is not
  NULL.
\<close>

function execute_loop :: "nat \<Rightarrow> env \<Rightarrow> world \<Rightarrow> string list \<Rightarrow> int result" where
  "execute_loop i e w args =
     (if i < shh_num_builtins then
        (if strcmp (args ! 0) (builtin_str ! i) = 0 then (builtin_func ! i) e w args
         else execute_loop (i + 1) e w args)
      else shh_launch e w args)"
  by pat_completeness auto
termination
  by (relation "measure (\<lambda>(i, e, w, args). shh_num_builtins - i)") auto

declare execute_loop.simps [simp del]

definition shh_execute :: handler where
  "shh_execute e w args =
     (case args of
        [] \<Rightarrow> Returns 1 w
      | _ # _ \<Rightarrow> execute_loop 0 e w args)"

text \<open>One pass through the body of the \<^verbatim>\<open>do ... while (status)\<close> loop of
  \<^verbatim>\<open>shh_loop\<close>.\<close>

definition shh_iteration :: "env \<Rightarrow> world \<Rightarrow> int result" where
  "shh_iteration e w =
     and_then (shh_read_line (alloc_line e) (print ''> '' w)) (\<lambda>line w1.
     and_then (shh_split_line (alloc_toks e) w1 (c_str line)) (\<lambda>args w2.
     shh_execute e w2 (argv args)))"

text \<open>
  \<^verbatim>\<open>shh_loop\<close>. The loop may run for ever, so the list of environments is also its
  fuel: each iteration uses one up, and \<open>None\<close> says that the loop is still running
  when they are used up.
\<close>

fun shh_loop :: "env list \<Rightarrow> world \<Rightarrow> unit result option" where
  "shh_loop [] w = None"
| "shh_loop (e # es) w =
     (case shh_iteration e w of
        Returns status w' \<Rightarrow> if status \<noteq> 0 then shh_loop es w' else Some (Returns () w')
      | Exits code w' \<Rightarrow> Some (Exits code w')
      | Execs file args w' \<Rightarrow> Some (Execs file args w')
      | Blocks w' \<Rightarrow> Some (Blocks w')
      | Spins w' \<Rightarrow> Some (Spins w')
      | Undefined \<Rightarrow> Some Undefined)"

definition main :: "env list \<Rightarrow> world \<Rightarrow> int result option" where
  "main es w =
     map_option (\<lambda>r. and_then r (\<lambda>_ w'. Returns EXIT_SUCCESS w')) (shh_loop es w)"

section \<open>The words of the specification\<close>

text \<open>
  The maximal runs of non-delimiter characters of a line, from left to right: a run
  grows by every character that is not a delimiter and is closed by a delimiter or by
  the end of the line; a delimiter with no run open closes nothing.
\<close>

fun runs_from :: "string \<Rightarrow> string \<Rightarrow> string \<Rightarrow> string list" where
  "runs_from delim run [] = (if run = [] then [] else [run])"
| "runs_from delim run (c # cs) =
     (if c \<in> set delim then (if run = [] then [] else [run]) @ runs_from delim [] cs
      else runs_from delim (run @ [c]) cs)"

definition maximal_runs :: "string \<Rightarrow> string \<Rightarrow> string list" where
  "maximal_runs delim line = runs_from delim [] line"

text \<open>The tokens joined by single spaces.\<close>

fun join_spaces :: "string list \<Rightarrow> string" where
  "join_spaces [] = []"
| "join_spaces [t] = t"
| "join_spaces (t # u # ts) = t @ '' '' @ join_spaces (u # ts)"

text \<open>
  The same, as a relation between a line and its runs: the line is delimiters only and
  has no run; or it is delimiters, then a run (not empty, free of delimiters) that the
  end of the line or a delimiter closes, then a line with the runs that remain.
\<close>

inductive run_split :: "string \<Rightarrow> string \<Rightarrow> string list \<Rightarrow> bool" for delim :: string where
  no_run: "set s \<subseteq> set delim \<Longrightarrow> run_split delim s []"
| run: "set d \<subseteq> set delim \<Longrightarrow> t \<noteq> [] \<Longrightarrow> set t \<inter> set delim = {} \<Longrightarrow>
        rest = [] \<or> hd rest \<in> set delim \<Longrightarrow> run_split delim rest ts \<Longrightarrow>
        run_split delim (d @ t @ rest) (t # ts)"

text \<open>The tokens that a state of the \<^verbatim>\<open>strtok\<close> scan stands for: the token just
  returned and those of the string still to be scanned.\<close>

fun pending :: "string \<Rightarrow> (string \<times> string) option \<Rightarrow> string list" where
  "pending delim None = []"
| "pending delim (Some (token, rest)) = token # maximal_runs delim rest"

text \<open>The calls of \<^verbatim>\<open>fork\<close> in the log of a process.\<close>

fun is_fork :: "syscall \<Rightarrow> bool" where
  "is_fork (Fork r) = True"
| "is_fork (Waitpid pid status) = False"
| "is_fork (WaitpidFailed pid) = False"
| "is_fork (Chdir dir) = False"
| "is_fork (Execvp file args) = False"

definition forks :: "world \<Rightarrow> syscall list" where
  "forks w = filter is_fork (syscalls w)"

text \<open>A child has reached a terminal state: it exited, or a signal killed it.\<close>

definition terminal :: "wstatus \<Rightarrow> bool" where
  "terminal status = (case status of WExited _ \<Rightarrow> True | WSignaled _ \<Rightarrow> True | WStopped _ \<Rightarrow> False)"

text \<open>
  The wait loop comes to an end: a terminal state is reported, or a call fails while
  \<^verbatim>\<open>status\<close> holds a value that looks terminal.
\<close>

fun wait_returns :: "wait_rest \<Rightarrow> wait_result list \<Rightarrow> wstatus \<Rightarrow> bool" where
  "wait_returns rest [] status = (rest = NoChild \<and> terminal status)"
| "wait_returns rest (Reported written # later) status =
     (terminal written \<or> wait_returns rest later written)"
| "wait_returns rest (WaitFailed # later) status =
     (terminal status \<or> wait_returns rest later status)"

text \<open>
  The launch returns to its caller: \<^verbatim>\<open>fork\<close> failed, or the process is the parent and
  its wait loop comes to an end. (In the child the call never returns.)
\<close>

definition launch_returns :: "env \<Rightarrow> bool" where
  "launch_returns e =
     (case sys_fork e of
        ForkFailed msg \<Rightarrow> True
      | InChild \<Rightarrow> False
      | InParent pid \<Rightarrow> wait_returns (sys_wait_rest e) (sys_wait e) (sys_status0 e))"

text \<open>What \<^verbatim>\<open>help\<close> writes: the banner and the builtin names in the order of the
  table.\<close>

definition help_text :: string where
  "help_text =
     ''AkG's SHH '' @ [newline] @
     ''Type program names and arguments, and hit enter.'' @ [newline] @
     ''The following are built in:'' @ [newline] @
     ''    cd'' @ [newline] @ ''    help'' @ [newline] @ ''    exit'' @ [newline] @
     ''Use the man command for information on other programs.'' @ [newline]"

section \<open>A process to run the model on\<close>

definition world0 :: world where
  "world0 = \<lparr>cwd = ''/home'', stdin = [], stdout = [], stderr = [], syscalls = []\<rparr>"

definition env0 :: env where
  "env0 = \<lparr>alloc_line = (\<lambda>_. True), alloc_toks = (\<lambda>_. True),
           sys_chdir = (\<lambda>d p. if p = ''/tmp'' then Inr ''/tmp'' else Inl ''No such file or directory''),
           sys_fork = InParent 42,
           sys_execvp = (\<lambda>file args. if file = ''ls'' then None else Some ''No such file or directory''),
           sys_wait = [Reported (WStopped 19), Reported (WStopped 19), Reported (WExited 0),
                       Reported (WStopped 19)],
           sys_wait_rest = Unchanged,
           sys_status0 = WStopped 19\<rparr>"

section \<open>Properties of the line reader\<close>


text \<open>A request that the allocator refuses ends the process: the message goes to the error
  stream and the exit code is \<^verbatim>\<open>EXIT_FAILURE\<close>.\<close>

lemma shh_read_line_allocation_failure:
  "\<not> alloc (nat SHH_RL_BUFSIZE) \<Longrightarrow>
     shh_read_line alloc w = Exits EXIT_FAILURE (w\<lparr>stderr := stderr w @ allocation_error\<rparr>)"
  by (simp add: shh_read_line_def eprint_def)

lemma shh_split_line_allocation_failure:
  "\<not> alloc (sizeof_ptr * nat SHH_TOK_BUFSIZE) \<Longrightarrow>
     shh_split_line alloc w line = Exits EXIT_FAILURE (w\<lparr>stderr := stderr w @ allocation_error\<rparr>)"
  by (simp add: shh_split_line_def eprint_def)





section \<open>Properties of the tokenizer\<close>

lemma runs_from_skip:
  "runs_from delim [] s = runs_from delim [] (dropWhile (\<lambda>c. c \<in> set delim) s)"
  by (induction s) simp_all

lemma runs_from_append:
  "set t \<inter> set delim = {} \<Longrightarrow> runs_from delim run (t @ s) = runs_from delim (run @ t) s"
  by (induction t arbitrary: run) auto

lemma runs_from_take:
  "runs_from delim run s =
     runs_from delim (run @ takeWhile (\<lambda>c. c \<notin> set delim) s) (dropWhile (\<lambda>c. c \<notin> set delim) s)"
  by (induction s arbitrary: run) simp_all

lemma runs_from_close:
  "run \<noteq> [] \<Longrightarrow> s = [] \<or> hd s \<in> set delim \<Longrightarrow>
     runs_from delim run s = run # runs_from delim [] (drop 1 s)"
  by (cases s) auto

lemma maximal_runs_strtok:
  "maximal_runs delim s =
     (case strtok s delim of None \<Rightarrow> [] | Some (t, rest) \<Rightarrow> t # maximal_runs delim rest)"
proof -
  let ?start = "dropWhile (\<lambda>c. c \<in> set delim) s"
  let ?t = "takeWhile (\<lambda>c. c \<notin> set delim) ?start"
  let ?after = "dropWhile (\<lambda>c. c \<notin> set delim) ?start"
  have skip: "maximal_runs delim s = runs_from delim [] ?start"
    unfolding maximal_runs_def by (rule runs_from_skip)
  show ?thesis
  proof (cases "?start = []")
    case True
    with skip show ?thesis by (simp add: strtok_def)
  next
    case False
    then have "hd ?start \<notin> set delim"
      using hd_dropWhile [of "\<lambda>c. c \<in> set delim" s] by simp
    with False have t: "?t \<noteq> []"
      by (cases ?start) auto
    have after: "?after = [] \<or> hd ?after \<in> set delim"
      using hd_dropWhile [of "\<lambda>c. c \<notin> set delim" ?start] by auto
    have "runs_from delim [] ?start = runs_from delim ?t ?after"
      using runs_from_take [of delim "[]" ?start] by simp
    also have "\<dots> = ?t # runs_from delim [] (drop 1 ?after)"
      using t after by (rule runs_from_close)
    finally have "maximal_runs delim s = ?t # maximal_runs delim (drop 1 ?after)"
      using skip by (simp add: maximal_runs_def)
    moreover have "strtok s delim = Some (?t, drop 1 ?after)"
      using False by (simp add: strtok_def Let_def)
    ultimately show ?thesis by simp
  qed
qed

lemma pending_strtok: "pending delim (strtok s delim) = maximal_runs delim s"
  using maximal_runs_strtok [of delim s] by (cases "strtok s delim") auto

lemma split_loop_runs:
  assumes "\<forall>n. alloc n"
    and "int (length tokens) + int (length (pending SHH_TOK_DELIM tok)) \<le> INT_MAX - SHH_TOK_BUFSIZE"
  shows "split_loop alloc w bufsize tokens tok =
           Returns (tokens @ map Some (pending SHH_TOK_DELIM tok) @ [None]) w"
  using assms
proof (induction alloc w bufsize tokens tok rule: split_loop.induct)
  case (1 alloc w bufsize tokens)
  then show ?case by simp
next
  case (2 alloc w bufsize tokens token rest)
  let ?tokens = "tokens @ [Some token]"
  let ?next = "strtok rest SHH_TOK_DELIM"
  from "2.prems"(2)
  have len: "int (length ?tokens) + int (length (pending SHH_TOK_DELIM ?next))
               \<le> INT_MAX - SHH_TOK_BUFSIZE"
    by (simp add: pending_strtok)
  have fits: "int (length ?tokens) \<ge> bufsize \<Longrightarrow> \<not> bufsize + SHH_TOK_BUFSIZE > INT_MAX"
    using len by linarith
  have ok: "alloc (sizeof_ptr * nat (bufsize + SHH_TOK_BUFSIZE))"
    using "2.prems"(1) by simp
  have result: "tokens @ map Some (pending SHH_TOK_DELIM (Some (token, rest))) @ [None] =
          ?tokens @ map Some (pending SHH_TOK_DELIM ?next) @ [None]"
    by (simp add: pending_strtok)
  show ?case
  proof (cases "int (length ?tokens) \<ge> bufsize")
    case True
    with fits ok "2.IH"(1) [OF True _ _ "2.prems"(1) len] show ?thesis
      unfolding result by (simp del: length_append pending.simps)
  next
    case False
    with "2.IH"(2) [OF False "2.prems"(1) len] show ?thesis
      unfolding result by (simp del: length_append pending.simps)
  qed
qed

lemma shh_split_line_runs:
  assumes "\<forall>n. alloc n"
    and "int (length (maximal_runs SHH_TOK_DELIM line)) \<le> INT_MAX - SHH_TOK_BUFSIZE"
  shows "shh_split_line alloc w line =
           Returns (map Some (maximal_runs SHH_TOK_DELIM line) @ [None]) w"
  using assms split_loop_runs [of alloc "[]" "strtok line SHH_TOK_DELIM" w SHH_TOK_BUFSIZE]
  by (simp add: shh_split_line_def pending_strtok)

lemma runs_from_tokens:
  "t \<in> set (runs_from delim run s) \<Longrightarrow> set run \<inter> set delim = {} \<Longrightarrow>
     t \<noteq> [] \<and> set t \<inter> set delim = {}"
proof (induction s arbitrary: run)
  case Nil
  then show ?case by (auto split: if_splits)
next
  case (Cons c s)
  show ?case
  proof (cases "c \<in> set delim")
    case True
    with Cons.prems have "t = run \<and> run \<noteq> [] \<or> t \<in> set (runs_from delim [] s)"
      by (auto split: if_splits)
    then show ?thesis
      using Cons.IH [of "[]"] Cons.prems(2) by auto
  next
    case False
    with Cons.prems have "t \<in> set (runs_from delim (run @ [c]) s)"
      by simp
    then show ?thesis
      using Cons.IH [of "run @ [c]"] Cons.prems(2) False by auto
  qed
qed

lemma concat_runs_from:
  "concat (runs_from delim run s) = run @ filter (\<lambda>c. c \<notin> set delim) s"
  by (induction s arbitrary: run) auto

lemma argv_tokens: "argv (map Some ts @ [None]) = ts"
  by (induction ts) simp_all

lemma maximal_runs_join:
  assumes "CHR '' '' \<in> set delim"
    and "\<forall>t \<in> set ts. t \<noteq> [] \<and> set t \<inter> set delim = {}"
  shows "maximal_runs delim (join_spaces ts) = ts"
  using assms(2)
proof (induction ts rule: join_spaces.induct)
  case 1
  then show ?case by (simp add: maximal_runs_def)
next
  case (2 t)
  then show ?case
    using runs_from_append [of t delim "[]" "[]"] by (simp add: maximal_runs_def)
next
  case (3 t u ts)
  then have "maximal_runs delim (join_spaces (u # ts)) = u # ts"
    by simp
  moreover from 3 have "t \<noteq> []" "set t \<inter> set delim = {}"
    by simp_all
  ultimately show ?case
    using assms(1) runs_from_append [of t delim "[]" "CHR '' '' # join_spaces (u # ts)"]
    by (simp add: maximal_runs_def)
qed

lemma maximal_runs_drop:
  "s = [] \<or> hd s \<in> set delim \<Longrightarrow> maximal_runs delim (drop 1 s) = maximal_runs delim s"
  by (cases s) (auto simp: maximal_runs_def)

lemma maximal_runs_split: "run_split delim s (maximal_runs delim s)"
proof (induction s rule: length_induct)
  case (1 s)
  let ?d = "takeWhile (\<lambda>c. c \<in> set delim) s"
  let ?start = "dropWhile (\<lambda>c. c \<in> set delim) s"
  let ?t = "takeWhile (\<lambda>c. c \<notin> set delim) ?start"
  let ?after = "dropWhile (\<lambda>c. c \<notin> set delim) ?start"
  show ?case
  proof (cases "?start = []")
    case True
    then have "set s \<subseteq> set delim" by auto
    moreover from True have "maximal_runs delim s = []"
      using maximal_runs_strtok [of delim s] by (simp add: strtok_def)
    ultimately show ?thesis by (simp add: run_split.no_run)
  next
    case False
    then have "hd ?start \<notin> set delim"
      using hd_dropWhile [of "\<lambda>c. c \<in> set delim" s] by simp
    with False have t: "?t \<noteq> []"
      by (cases ?start) auto
    have after: "?after = [] \<or> hd ?after \<in> set delim"
      using hd_dropWhile [of "\<lambda>c. c \<notin> set delim" ?start] by auto
    have "length ?after < length ?start"
      using t length_append [of ?t ?after] by (simp del: length_append)
    also have "\<dots> \<le> length s"
      by (rule length_dropWhile_le)
    finally have ih: "run_split delim ?after (maximal_runs delim ?after)"
      using 1 by blast
    have "strtok s delim = Some (?t, drop 1 ?after)"
      using False by (simp add: strtok_def Let_def)
    then have "maximal_runs delim s = ?t # maximal_runs delim (drop 1 ?after)"
      using maximal_runs_strtok [of delim s] by simp
    also have "maximal_runs delim (drop 1 ?after) = maximal_runs delim ?after"
      using after by (rule maximal_runs_drop)
    finally have runs: "maximal_runs delim s = ?t # maximal_runs delim ?after" .
    have d: "set ?d \<subseteq> set delim"
      by (auto dest: set_takeWhileD)
    have t_free: "set ?t \<inter> set delim = {}"
      by (auto dest: set_takeWhileD)
    have "run_split delim (?d @ ?t @ ?after) (?t # maximal_runs delim ?after)"
      using d t t_free after ih by (rule run_split.run)
    then have "run_split delim s (?t # maximal_runs delim ?after)"
      by simp
    with runs show ?thesis by simp
  qed
qed

lemma delimiters: "set SHH_TOK_DELIM = {CHR '' '', CHR 0x09, CHR 0x0A, CHR 0x0D, CHR 0x07}"
  by (simp add: SHH_TOK_DELIM_def)

text \<open>
  C7: \<^verbatim>\<open>shh_split_line\<close> returns the maximal runs of non-delimiter characters of the
  line, from left to right, followed by the NULL sentinel. The delimiters are the five
  characters space, tab, newline, carriage return and bell, each one on its own. No
  token is empty, none holds a delimiter, and the tokens together are the characters
  of the line that are not delimiters, in their order. This is what the call does when
  the allocator grants every request and there are at most \<open>INT_MAX - 1024\<close> tokens,
  beyond which the \<^verbatim>\<open>int\<close> holding the array size overflows.
\<close>

theorem shh_split_line_maximal_runs:
  assumes "\<forall>n. alloc n"
    and "int (length (maximal_runs SHH_TOK_DELIM line)) \<le> INT_MAX - SHH_TOK_BUFSIZE"
  shows "shh_split_line alloc w line =
           Returns (map Some (maximal_runs SHH_TOK_DELIM line) @ [None]) w
         \<and> set SHH_TOK_DELIM = {CHR '' '', CHR 0x09, CHR 0x0A, CHR 0x0D, CHR 0x07}
         \<and> (\<forall>t \<in> set (maximal_runs SHH_TOK_DELIM line). t \<noteq> [] \<and> set t \<inter> set SHH_TOK_DELIM = {})
         \<and> run_split SHH_TOK_DELIM line (maximal_runs SHH_TOK_DELIM line)
         \<and> concat (maximal_runs SHH_TOK_DELIM line) = filter (\<lambda>c. c \<notin> set SHH_TOK_DELIM) line"
proof -
  have "\<forall>t \<in> set (maximal_runs SHH_TOK_DELIM line). t \<noteq> [] \<and> set t \<inter> set SHH_TOK_DELIM = {}"
    using runs_from_tokens [of _ SHH_TOK_DELIM "[]" line] by (simp add: maximal_runs_def)
  moreover have "concat (maximal_runs SHH_TOK_DELIM line) = filter (\<lambda>c. c \<notin> set SHH_TOK_DELIM) line"
    by (simp add: maximal_runs_def concat_runs_from)
  ultimately show ?thesis
    using shh_split_line_runs [OF assms, of w] delimiters maximal_runs_split [of SHH_TOK_DELIM line]
    by simp
qed

theorem shh_split_line_maximal_runs_witness:
  "(\<forall>n. (\<lambda>_. True) n)
   \<and> int (length (maximal_runs SHH_TOK_DELIM ('' ls   -l'' @ [CHR 0x09, CHR 0x07] @ ''/tmp '')))
       \<le> INT_MAX - SHH_TOK_BUFSIZE
   \<and> shh_split_line (\<lambda>_. True) world0 ('' ls   -l'' @ [CHR 0x09, CHR 0x07] @ ''/tmp '') =
       Returns [Some ''ls'', Some ''-l'', Some ''/tmp'', None] world0"
  using shh_split_line_maximal_runs
    [of "\<lambda>_. True" "'' ls   -l'' @ [CHR 0x09, CHR 0x07] @ ''/tmp ''" world0]
  by (simp add: maximal_runs_def SHH_TOK_DELIM_def INT_MAX_def SHH_TOK_BUFSIZE_def)

text \<open>
  C9: for tokens that are not empty and hold no delimiter, splitting the line that joins
  them with single spaces gives the tokens back, followed by the sentinel; so it does
  for \<open>cmd\<close>, \<open>a\<close>, \<open>b\<close>. (Same conditions on the allocator and on the number of
  tokens as in C7.)
\<close>

theorem shh_split_line_join_roundtrip:
  assumes "\<forall>n. alloc n"
    and "int (length ts) \<le> INT_MAX - SHH_TOK_BUFSIZE"
    and "\<forall>t \<in> set ts. t \<noteq> [] \<and> set t \<inter> set SHH_TOK_DELIM = {}"
  shows "shh_split_line alloc w (join_spaces ts) = Returns (map Some ts @ [None]) w
         \<and> argv (map Some ts @ [None]) = ts
         \<and> shh_split_line alloc w (join_spaces [''cmd'', ''a'', ''b'']) =
             Returns [Some ''cmd'', Some ''a'', Some ''b'', None] w"
proof -
  have space: "CHR '' '' \<in> set SHH_TOK_DELIM"
    by (simp add: SHH_TOK_DELIM_def)
  have runs: "maximal_runs SHH_TOK_DELIM (join_spaces ts) = ts"
    using space assms(3) by (rule maximal_runs_join)
  have "\<forall>t \<in> set [''cmd'', ''a'', ''b'']. t \<noteq> [] \<and> set t \<inter> set SHH_TOK_DELIM = {}"
    by (simp add: SHH_TOK_DELIM_def)
  with space have cmd: "maximal_runs SHH_TOK_DELIM (join_spaces [''cmd'', ''a'', ''b'']) =
      [''cmd'', ''a'', ''b'']"
    by (rule maximal_runs_join)
  have "shh_split_line alloc w (join_spaces ts) = Returns (map Some ts @ [None]) w"
    using shh_split_line_runs [of alloc "join_spaces ts" w] assms(1,2) runs by simp
  moreover have "shh_split_line alloc w (join_spaces [''cmd'', ''a'', ''b'']) =
             Returns [Some ''cmd'', Some ''a'', Some ''b'', None] w"
    using shh_split_line_runs [of alloc "join_spaces [''cmd'', ''a'', ''b'']" w] assms(1) cmd
    by (simp add: INT_MAX_def SHH_TOK_BUFSIZE_def)
  ultimately show ?thesis
    by (simp add: argv_tokens)
qed

theorem shh_split_line_join_roundtrip_witness:
  "(\<forall>n. (\<lambda>_. True) n)
   \<and> int (length [''grep'', ''-r'', ''x'']) \<le> INT_MAX - SHH_TOK_BUFSIZE
   \<and> list_all (\<lambda>t. t \<noteq> [] \<and> set t \<inter> set SHH_TOK_DELIM = {}) [''grep'', ''-r'', ''x'']
   \<and> join_spaces [''grep'', ''-r'', ''x''] = ''grep -r x''
   \<and> shh_split_line (\<lambda>_. True) world0 ''grep -r x'' =
       Returns [Some ''grep'', Some ''-r'', Some ''x'', None] world0"
  using shh_split_line_join_roundtrip [of "\<lambda>_. True" "[''grep'', ''-r'', ''x'']" world0]
  by (simp add: SHH_TOK_DELIM_def INT_MAX_def SHH_TOK_BUFSIZE_def)

section \<open>Lemmas on the dispatch, the builtin commands and the launch\<close>

lemma strcmp_eq: "strcmp a b = 0 \<longleftrightarrow> a = b"
  by (induction a b rule: strcmp.induct) auto

lemma execute_loop_3: "execute_loop (Suc (Suc (Suc 0))) e w args = shh_launch e w args"
  by (subst execute_loop.simps) (simp add: shh_num_builtins_def builtin_str_def)

lemma execute_loop_2:
  "execute_loop (Suc (Suc 0)) e w args =
     (if args ! 0 = ''exit'' then shh_exit e w args else shh_launch e w args)"
  by (subst execute_loop.simps)
    (simp add: shh_num_builtins_def builtin_str_def builtin_func_def strcmp_eq execute_loop_3)

lemma execute_loop_1:
  "execute_loop (Suc 0) e w args =
     (if args ! 0 = ''help'' then shh_help e w args
      else if args ! 0 = ''exit'' then shh_exit e w args else shh_launch e w args)"
  by (subst execute_loop.simps)
    (simp add: shh_num_builtins_def builtin_str_def builtin_func_def strcmp_eq execute_loop_2)

lemma execute_loop_0:
  "execute_loop 0 e w args =
     (if args ! 0 = ''cd'' then shh_cd e w args
      else if args ! 0 = ''help'' then shh_help e w args
      else if args ! 0 = ''exit'' then shh_exit e w args else shh_launch e w args)"
  by (subst execute_loop.simps)
    (simp add: shh_num_builtins_def builtin_str_def builtin_func_def strcmp_eq execute_loop_1)

lemma shh_execute_cases:
  "shh_execute e w (a # rest) =
     (if a = ''cd'' then shh_cd e w (a # rest)
      else if a = ''help'' then shh_help e w (a # rest)
      else if a = ''exit'' then shh_exit e w (a # rest) else shh_launch e w (a # rest))"
  by (simp add: shh_execute_def execute_loop_0)

lemma builtin_indices: "[0 ..< shh_num_builtins] = [0, 1, 2]"
  by (simp add: shh_num_builtins_def builtin_str_def)

lemma print_print: "print b (print a w) = print (a @ b) w"
  by (simp add: print_def)

lemma help_loop:
  "foldl (\<lambda>w' i. print (''    '' @ builtin_str ! i @ [newline]) w') w [0 ..< shh_num_builtins] =
     print (''    cd'' @ [newline] @ ''    help'' @ [newline] @ ''    exit'' @ [newline]) w"
  unfolding builtin_indices by (simp add: builtin_str_def print_print)

lemma shh_help_prints: "shh_help e w args = Returns 1 (print help_text w)"
  unfolding shh_help_def Let_def help_loop print_print help_text_def by simp

lemma forks_print [simp]: "forks (print s w) = forks w"
  by (simp add: forks_def print_def)

lemma forks_eprint [simp]: "forks (eprint s w) = forks w"
  by (simp add: forks_def eprint_def)

lemma forks_perror [simp]: "forks (perror s msg w) = forks w"
  by (simp add: perror_def)

lemma terminal_iff: "terminal status \<longleftrightarrow> WIFEXITED status \<or> WIFSIGNALED status"
  by (cases status) (simp_all add: terminal_def)

lemma waitpid_loop_terminal:
  "list_ex terminal reports \<Longrightarrow>
     waitpid_loop pid rest (map Reported reports @ later) status w =
       Returns ()
         (w\<lparr>syscalls := syscalls w @
              map (Waitpid pid)
                (takeWhile (\<lambda>s. \<not> terminal s) reports @
                 [hd (dropWhile (\<lambda>s. \<not> terminal s) reports)])\<rparr>)"
  by (induction reports arbitrary: w status) (auto simp: terminal_iff log_call_def)

lemma waitpid_loop_stopped:
  "\<not> list_ex terminal reports \<Longrightarrow>
     waitpid_loop pid Unchanged (map Reported reports) status w =
       Blocks (w\<lparr>syscalls := syscalls w @ map (Waitpid pid) reports\<rparr>)"
  by (induction reports arbitrary: w status) (auto simp: terminal_iff log_call_def)

lemma waitpid_loop_returns:
  "wait_returns rest results status \<Longrightarrow>
     \<exists>w'. waitpid_loop pid rest results status w = Returns () w'"
proof (induction rest results status arbitrary: w rule: wait_returns.induct)
  case (1 rest status)
  then show ?case by (simp add: terminal_iff)
next
  case (2 rest written later status)
  then show ?case by (cases "terminal written") (auto simp: terminal_iff)
next
  case (3 rest later status)
  then show ?case by (cases "terminal status") (auto simp: terminal_iff)
qed

lemma waitpid_loop_never_returns:
  "\<not> wait_returns rest results status \<Longrightarrow>
     waitpid_loop pid rest results status w \<noteq> Returns u w'"
proof (induction rest results status arbitrary: w rule: wait_returns.induct)
  case (1 rest status)
  then show ?case by (cases rest) (auto simp: terminal_iff)
next
  case (2 rest written later status)
  then show ?case by (auto simp: terminal_iff)
next
  case (3 rest later status)
  then show ?case by (auto simp: terminal_iff)
qed

lemma forks_log_call [simp]:
  "forks (log_call c w) = (if is_fork c then forks w @ [c] else forks w)"
  by (simp add: forks_def log_call_def)

lemma forks_cwd [simp]: "forks (w\<lparr>cwd := d\<rparr>) = forks w"
  by (simp add: forks_def)

lemma and_then_Returns:
  "and_then r f = Returns s w' \<longleftrightarrow> (\<exists>a w1. r = Returns a w1 \<and> f a w1 = Returns s w')"
  by (cases r) simp_all

lemma shh_launch_status: "shh_launch e w args = Returns s w' \<Longrightarrow> s = 1"
  by (cases "sys_fork e")
    (auto simp: shh_launch_def and_then_Returns split: list.splits option.splits)

lemma shh_cd_status: "shh_cd e w args = Returns s w' \<Longrightarrow> s = 1 \<and> forks w' = forks w"
  by (auto simp: shh_cd_def split: list.splits sum.splits)

lemma shh_cd_one: "shh_cd e w [c] =
    Returns 1 (w\<lparr>stderr := stderr w @ ''shh: expected argument to '' @ [CHR 0x22] @ ''cd'' @ [CHR 0x22, newline]\<rparr>)"
  by (simp add: shh_cd_def eprint_def)

lemma shh_cd_ok:
  "sys_chdir e (cwd w) dir = Inr d \<Longrightarrow>
     shh_cd e w (c # dir # rest) = Returns 1 (w\<lparr>cwd := d, syscalls := syscalls w @ [Chdir dir]\<rparr>)"
  by (simp add: shh_cd_def log_call_def)

lemma shh_cd_failed:
  "sys_chdir e (cwd w) dir = Inl msg \<Longrightarrow>
     shh_cd e w (c # dir # rest) =
       Returns 1 (w\<lparr>stderr := stderr w @ ''shh: '' @ msg @ [newline],
                   syscalls := syscalls w @ [Chdir dir]\<rparr>)"
  by (simp add: shh_cd_def log_call_def perror_def eprint_def)

lemma shh_cd_returns: "\<exists>w'. shh_cd e w (c # rest) = Returns 1 w'"
  by (auto simp: shh_cd_def split: list.splits sum.splits)

lemma shh_launch_fork_failed:
  "sys_fork e = ForkFailed msg \<Longrightarrow>
     shh_launch e w args =
       Returns 1 (w\<lparr>stderr := stderr w @ ''shh: '' @ msg @ [newline],
                   syscalls := syscalls w @ [Fork (ForkFailed msg)]\<rparr>)"
  by (simp add: shh_launch_def log_call_def perror_def eprint_def)

lemma shh_launch_parent_terminal:
  "sys_fork e = InParent pid \<Longrightarrow> sys_wait e = map Reported reports @ later \<Longrightarrow>
   list_ex terminal reports \<Longrightarrow>
     shh_launch e w args =
       Returns 1
         (w\<lparr>syscalls := syscalls w @ Fork (InParent pid) #
              map (Waitpid pid)
                (takeWhile (\<lambda>s. \<not> terminal s) reports @
                 [hd (dropWhile (\<lambda>s. \<not> terminal s) reports)])\<rparr>)"
  by (simp add: shh_launch_def waitpid_loop_terminal log_call_def)

lemma shh_launch_parent_stopped:
  "sys_fork e = InParent pid \<Longrightarrow> sys_wait e = map Reported reports \<Longrightarrow>
   sys_wait_rest e = Unchanged \<Longrightarrow> \<not> list_ex terminal reports \<Longrightarrow>
     shh_launch e w args =
       Blocks (w\<lparr>syscalls := syscalls w @ Fork (InParent pid) # map (Waitpid pid) reports\<rparr>)"
  by (simp add: shh_launch_def waitpid_loop_stopped log_call_def)

lemma shh_launch_child: "sys_fork e = InChild \<Longrightarrow> shh_launch e w args \<noteq> Returns s w'"
  by (simp add: shh_launch_def split: list.splits option.splits)

lemma shh_launch_returns:
  "launch_returns e \<Longrightarrow> \<exists>w'. shh_launch e w args = Returns 1 w'"
proof (cases "sys_fork e")
  case (ForkFailed msg)
  then show ?thesis by (simp add: shh_launch_fork_failed)
next
  case InChild
  assume "launch_returns e"
  with InChild show ?thesis by (simp add: launch_returns_def)
next
  case (InParent pid)
  assume "launch_returns e"
  with InParent have "wait_returns (sys_wait_rest e) (sys_wait e) (sys_status0 e)"
    by (simp add: launch_returns_def)
  then obtain w' where
    "waitpid_loop pid (sys_wait_rest e) (sys_wait e) (sys_status0 e)
       (log_call (Fork (InParent pid)) w) = Returns () w'"
    using waitpid_loop_returns by blast
  with InParent show ?thesis by (simp add: shh_launch_def)
qed

lemma shh_launch_returns_iff:
  "(\<exists>s w'. shh_launch e w args = Returns s w') \<longleftrightarrow> launch_returns e"
proof
  assume "launch_returns e"
  then show "\<exists>s w'. shh_launch e w args = Returns s w'"
    using shh_launch_returns by blast
next
  assume "\<exists>s w'. shh_launch e w args = Returns s w'"
  then obtain s w' where r: "shh_launch e w args = Returns s w'"
    by blast
  show "launch_returns e"
  proof (cases "sys_fork e")
    case (ForkFailed msg)
    then show ?thesis by (simp add: launch_returns_def)
  next
    case InChild
    with r show ?thesis using shh_launch_child by blast
  next
    case (InParent pid)
    with r show ?thesis
      using waitpid_loop_never_returns
        [of "sys_wait_rest e" "sys_wait e" "sys_status0 e" pid "log_call (Fork (InParent pid)) w"]
      by (auto simp: shh_launch_def launch_returns_def and_then_Returns)
  qed
qed

lemma shh_execute_status:
  assumes r: "shh_execute e w args = Returns s w'"
  shows "(s = 0 \<longleftrightarrow> args \<noteq> [] \<and> hd args = ''exit'') \<and> (s = 0 \<or> s = 1)"
proof (cases args)
  case Nil
  with r show ?thesis by (auto simp: shh_execute_def)
next
  case (Cons a rest)
  consider "a = ''cd''" | "a = ''help''" | "a = ''exit''"
    | "a \<noteq> ''cd''" "a \<noteq> ''help''" "a \<noteq> ''exit''"
    by blast
  then show ?thesis
  proof cases
    case 1
    with r Cons show ?thesis
      using shh_cd_status [of e w args s w'] by (simp add: shh_execute_cases)
  next
    case 2
    with r Cons show ?thesis
      by (simp add: shh_execute_cases shh_help_prints)
  next
    case 3
    with r Cons show ?thesis
      by (simp add: shh_execute_cases shh_exit_def)
  next
    case 4
    with r Cons show ?thesis
      using shh_launch_status [of e w args s w'] by (simp add: shh_execute_cases)
  qed
qed

lemma shh_execute_builtin:
  assumes "args \<noteq> []"
  shows "(hd args = ''cd'' \<longrightarrow> shh_execute e w args = shh_cd e w args)
       \<and> (hd args = ''help'' \<longrightarrow> shh_execute e w args = shh_help e w args)
       \<and> (hd args = ''exit'' \<longrightarrow> shh_execute e w args = shh_exit e w args)
       \<and> (hd args \<notin> set builtin_str \<longrightarrow> shh_execute e w args = shh_launch e w args)"
  using assms by (cases args) (simp_all add: shh_execute_cases builtin_str_def)

section \<open>The builtin \<^verbatim>\<open>cd\<close> and the external launch\<close>

text \<open>
  C3: \<^verbatim>\<open>cd\<close>, on a token sequence with a first token. With no second token the
  working directory stays as it is and the message that an argument is expected goes to
  the error stream. Otherwise \<^verbatim>\<open>chdir\<close> is called on exactly the second token: when
  it names a directory the working directory becomes that directory, and when the call
  fails (the path does not exist, for one) the working directory stays as it is and
  \<^verbatim>\<open>perror\<close> reports the error of the call. In every case the handler returns 1,
  "continue"; and \<^verbatim>\<open>shh_execute\<close> runs this handler on a sequence that starts with
  \<open>cd\<close>.
\<close>

theorem shh_cd_changes_directory:
  "shh_cd e w [c] =
     Returns 1 (w\<lparr>stderr := stderr w @
        ''shh: expected argument to '' @ [CHR 0x22] @ ''cd'' @ [CHR 0x22, newline]\<rparr>)
   \<and> (sys_chdir e (cwd w) dir = Inr d \<longrightarrow>
        shh_cd e w (c # dir # rest) =
          Returns 1 (w\<lparr>cwd := d, syscalls := syscalls w @ [Chdir dir]\<rparr>))
   \<and> (sys_chdir e (cwd w) dir = Inl msg \<longrightarrow>
        shh_cd e w (c # dir # rest) =
          Returns 1 (w\<lparr>stderr := stderr w @ ''shh: '' @ msg @ [newline],
                      syscalls := syscalls w @ [Chdir dir]\<rparr>))
   \<and> (\<exists>w'. shh_cd e w (c # args) = Returns 1 w')
   \<and> shh_execute e w (''cd'' # args) = shh_cd e w (''cd'' # args)"
  using shh_cd_one [of e w c] shh_cd_ok [of e w dir d c rest] shh_cd_failed [of e w dir msg c rest]
    shh_cd_returns [of e w c args]
  by (simp add: shh_execute_cases)

theorem shh_cd_changes_directory_witness:
  "sys_chdir env0 (cwd world0) ''/tmp'' = Inr ''/tmp''
   \<and> shh_cd env0 world0 [''cd'', ''/tmp''] =
       Returns 1 (world0\<lparr>cwd := ''/tmp'', syscalls := [Chdir ''/tmp'']\<rparr>)
   \<and> sys_chdir env0 (cwd world0) ''/nowhere'' = Inl ''No such file or directory''
   \<and> shh_cd env0 world0 [''cd'', ''/nowhere''] =
       Returns 1 (world0\<lparr>stderr := ''shh: No such file or directory'' @ [newline],
                         syscalls := [Chdir ''/nowhere'']\<rparr>)"
  using shh_cd_changes_directory [of env0 world0 "''cd''" "''/tmp''" "''/tmp''" "[]"]
    shh_cd_changes_directory [of env0 world0 "''cd''" "''/nowhere''" _ "[]" "''No such file or directory''"]
  by (simp add: env0_def world0_def)

text \<open>
  The launch while every call of \<^verbatim>\<open>waitpid\<close> succeeds. Whenever the launch returns,
  it returns 1, "continue". When \<^verbatim>\<open>fork\<close> fails the parent reports it and returns
  without a call of \<^verbatim>\<open>waitpid\<close>. When \<^verbatim>\<open>fork\<close> succeeds the parent calls
  \<^verbatim>\<open>waitpid\<close> through every report of a stopped child and returns at the first
  report of a terminal state; when the reports are all of a stopped child and no other
  comes, it never returns. In the child the call does not return to the interpreter.
\<close>

lemma shh_launch_while_waitpid_succeeds:
  "(\<forall>s w'. shh_launch e w args = Returns s w' \<longrightarrow> s = 1)
   \<and> (sys_fork e = ForkFailed msg \<longrightarrow>
        shh_launch e w args =
          Returns 1 (w\<lparr>stderr := stderr w @ ''shh: '' @ msg @ [newline],
                      syscalls := syscalls w @ [Fork (ForkFailed msg)]\<rparr>))
   \<and> (sys_fork e = InParent pid \<and> sys_wait e = map Reported reports @ later \<and>
        list_ex terminal reports \<longrightarrow>
        shh_launch e w args =
          Returns 1
            (w\<lparr>syscalls := syscalls w @ Fork (InParent pid) #
                 map (Waitpid pid)
                   (takeWhile (\<lambda>s. \<not> terminal s) reports @
                    [hd (dropWhile (\<lambda>s. \<not> terminal s) reports)])\<rparr>))
   \<and> (sys_fork e = InParent pid \<and> sys_wait e = map Reported reports \<and>
        sys_wait_rest e = Unchanged \<and> \<not> list_ex terminal reports \<longrightarrow>
        shh_launch e w args =
          Blocks (w\<lparr>syscalls := syscalls w @ Fork (InParent pid) #
                        map (Waitpid pid) reports\<rparr>))
   \<and> (sys_fork e = InChild \<longrightarrow> (\<forall>s w'. shh_launch e w args \<noteq> Returns s w'))
   \<and> (\<forall>n. terminal (WExited n) \<and> terminal (WSignaled n) \<and> \<not> terminal (WStopped n))"
  using shh_launch_status [of e w args] shh_launch_fork_failed [of e msg w args]
    shh_launch_parent_terminal [of e pid reports later w args]
    shh_launch_parent_stopped [of e pid reports w args]
    shh_launch_child [of e w args]
  by (simp add: terminal_def)

text \<open>
  C4 fails on the code where \<^verbatim>\<open>waitpid\<close> fails. The loop does not look at what
  \<^verbatim>\<open>waitpid\<close> returns, and \<^verbatim>\<open>status\<close> is not initialised. With no child to wait
  for (\<^verbatim>\<open>ECHILD\<close>), the first call writes nothing: when the unwritten \<^verbatim>\<open>status\<close>
  looks exited, the launch returns at once, no terminal state reported; when it looks
  stopped, the launch calls \<^verbatim>\<open>waitpid\<close> for ever and never returns. After a report of
  a stopped child, a call that fails leaves that report in \<^verbatim>\<open>status\<close>, and the launch
  never returns either.
\<close>

theorem shh_launch_waitpid_failure:
  "shh_launch (env0\<lparr>sys_wait := [], sys_wait_rest := NoChild, sys_status0 := WExited 0\<rparr>)
       world0 [''true''] =
     Returns 1 (world0\<lparr>syscalls := [Fork (InParent 42), WaitpidFailed 42]\<rparr>)
   \<and> shh_launch (env0\<lparr>sys_wait := [], sys_wait_rest := NoChild, sys_status0 := WStopped 19\<rparr>)
       world0 [''true''] =
     Spins (world0\<lparr>syscalls := [Fork (InParent 42), WaitpidFailed 42]\<rparr>)
   \<and> shh_launch (env0\<lparr>sys_wait := [Reported (WStopped 19)], sys_wait_rest := NoChild,
                      sys_status0 := WExited 0\<rparr>)
       world0 [''true''] =
     Spins (world0\<lparr>syscalls :=
       [Fork (InParent 42), Waitpid 42 (WStopped 19), WaitpidFailed 42]\<rparr>)"
  by (simp add: shh_launch_def env0_def world0_def log_call_def)

section \<open>The dispatch and the status it returns\<close>

lemma builtin_no_fork:
  assumes "args \<noteq> []" and "hd args \<in> set builtin_str"
  shows "\<exists>s w'. shh_execute e w args = Returns s w' \<and> forks w' = forks w"
proof -
  from assms obtain a rest where args: "args = a # rest"
    by (cases args) auto
  from assms(2) args consider "a = ''cd''" | "a = ''help''" | "a = ''exit''"
    by (auto simp: builtin_str_def)
  then show ?thesis
  proof cases
    case 1
    obtain w' where "shh_cd e w (a # rest) = Returns 1 w'"
      using shh_cd_returns by blast
    with 1 args show ?thesis
      using shh_cd_status [of e w "a # rest" 1 w'] by (simp add: shh_execute_cases)
  next
    case 2
    with args show ?thesis by (simp add: shh_execute_cases shh_help_prints)
  next
    case 3
    with args show ?thesis by (simp add: shh_execute_cases shh_exit_def)
  qed
qed

text \<open>
  C5: on a token sequence that is not empty, \<^verbatim>\<open>shh_execute\<close> compares the first token
  with the names \<open>cd\<close>, \<open>help\<close>, \<open>exit\<close> of the table, exactly and with the case of
  the letters; on a match it is the call of that handler on the whole sequence, which
  returns without a call of \<^verbatim>\<open>fork\<close>; with no match it is the external launch of
  the sequence.
\<close>

theorem shh_execute_dispatch:
  assumes "args \<noteq> []"
  shows "(hd args = ''cd'' \<longrightarrow> shh_execute e w args = shh_cd e w args)
       \<and> (hd args = ''help'' \<longrightarrow> shh_execute e w args = shh_help e w args)
       \<and> (hd args = ''exit'' \<longrightarrow> shh_execute e w args = shh_exit e w args)
       \<and> (hd args \<in> set builtin_str \<longrightarrow>
            (\<exists>s w'. shh_execute e w args = Returns s w' \<and> forks w' = forks w))
       \<and> (hd args \<notin> set builtin_str \<longrightarrow> shh_execute e w args = shh_launch e w args)
       \<and> builtin_str = [''cd'', ''help'', ''exit'']"
  using shh_execute_builtin [OF assms, of e w] builtin_no_fork [OF assms, of e w]
  by (simp add: builtin_str_def)

theorem shh_execute_dispatch_witness:
  "shh_execute env0 world0 [''cd'', ''/tmp''] = shh_cd env0 world0 [''cd'', ''/tmp'']
   \<and> shh_execute env0 world0 [''help'', ''me''] = shh_help env0 world0 [''help'', ''me'']
   \<and> shh_execute env0 world0 [''exit''] = shh_exit env0 world0 [''exit'']
   \<and> (\<exists>s w'. shh_execute env0 world0 [''cd'', ''/tmp''] = Returns s w' \<and> forks w' = forks world0)
   \<and> ''CD'' \<notin> set builtin_str
   \<and> shh_execute env0 world0 [''CD'', ''/tmp''] = shh_launch env0 world0 [''CD'', ''/tmp'']"
proof -
  have "shh_execute env0 world0 [''cd'', ''/tmp''] = shh_cd env0 world0 [''cd'', ''/tmp'']
      \<and> (\<exists>s w'. shh_execute env0 world0 [''cd'', ''/tmp''] = Returns s w' \<and> forks w' = forks world0)"
  proof -
    have "[''cd'', ''/tmp''] \<noteq> [] \<and> hd [''cd'', ''/tmp''] = ''cd''
        \<and> hd [''cd'', ''/tmp''] \<in> set builtin_str"
      by (simp add: builtin_str_def)
    with shh_execute_dispatch [of "[''cd'', ''/tmp'']" env0 world0] show ?thesis
      by blast
  qed
  moreover have "shh_execute env0 world0 [''help'', ''me''] = shh_help env0 world0 [''help'', ''me'']"
    using shh_execute_dispatch [of "[''help'', ''me'']" env0 world0] by simp
  moreover have "shh_execute env0 world0 [''exit''] = shh_exit env0 world0 [''exit'']"
    using shh_execute_dispatch [of "[''exit'']" env0 world0] by simp
  moreover have upper: "''CD'' \<notin> set builtin_str"
    by (simp add: builtin_str_def)
  moreover have "shh_execute env0 world0 [''CD'', ''/tmp''] = shh_launch env0 world0 [''CD'', ''/tmp'']"
    using shh_execute_dispatch [of "[''CD'', ''/tmp'']" env0 world0] upper by simp
  ultimately show ?thesis by blast
qed

text \<open>
  C1: \<^verbatim>\<open>shh_exit\<close> returns 0, "stop", whatever its arguments. Whenever
  \<^verbatim>\<open>shh_execute\<close> returns, it returns 0 if and only if the first token is \<open>exit\<close>,
  and 1, "continue", otherwise. And it does return: 0 on \<open>exit\<close>; 1 on the empty
  sequence, on \<open>cd\<close> and on \<open>help\<close>; 1 on an external command whenever the launch
  returns.
\<close>

theorem shh_execute_stops_iff_exit:
  "shh_exit e w args = Returns 0 w
   \<and> (\<forall>s w'. shh_execute e w args = Returns s w' \<longrightarrow>
         (s = 0 \<longleftrightarrow> args \<noteq> [] \<and> hd args = ''exit'') \<and> (s = 0 \<or> s = 1))
   \<and> (args \<noteq> [] \<and> hd args = ''exit'' \<longrightarrow> shh_execute e w args = Returns 0 w)
   \<and> (args = [] \<longrightarrow> shh_execute e w args = Returns 1 w)
   \<and> (args \<noteq> [] \<and> hd args = ''cd'' \<longrightarrow> (\<exists>w'. shh_execute e w args = Returns 1 w'))
   \<and> (args \<noteq> [] \<and> hd args = ''help'' \<longrightarrow> (\<exists>w'. shh_execute e w args = Returns 1 w'))
   \<and> (args \<noteq> [] \<and> hd args \<notin> set builtin_str \<and> launch_returns e \<longrightarrow>
         (\<exists>w'. shh_execute e w args = Returns 1 w'))"
proof -
  have "shh_exit e w args = Returns 0 w"
    by (simp add: shh_exit_def)
  moreover have "\<forall>s w'. shh_execute e w args = Returns s w' \<longrightarrow>
         (s = 0 \<longleftrightarrow> args \<noteq> [] \<and> hd args = ''exit'') \<and> (s = 0 \<or> s = 1)"
    using shh_execute_status by blast
  moreover have "args \<noteq> [] \<and> hd args = ''exit'' \<longrightarrow> shh_execute e w args = Returns 0 w"
    using shh_execute_builtin [of args e w] by (simp add: shh_exit_def)
  moreover have "args = [] \<longrightarrow> shh_execute e w args = Returns 1 w"
    by (simp add: shh_execute_def)
  moreover have "args \<noteq> [] \<and> hd args = ''cd'' \<longrightarrow> (\<exists>w'. shh_execute e w args = Returns 1 w')"
    using shh_execute_builtin [of args e w] shh_cd_returns [of e w "hd args" "tl args"]
    by (cases args) auto
  moreover have "args \<noteq> [] \<and> hd args = ''help'' \<longrightarrow> (\<exists>w'. shh_execute e w args = Returns 1 w')"
    using shh_execute_builtin [of args e w] by (simp add: shh_help_prints)
  moreover have "args \<noteq> [] \<and> hd args \<notin> set builtin_str \<and> launch_returns e \<longrightarrow>
         (\<exists>w'. shh_execute e w args = Returns 1 w')"
    using shh_execute_builtin [of args e w] shh_launch_returns [of e w args] by auto
  ultimately show ?thesis
    by (intro conjI)
qed

theorem shh_execute_stops_iff_exit_witness:
  "shh_execute env0 world0 [''exit'', ''now''] = Returns 0 world0
   \<and> shh_execute env0 world0 [] = Returns 1 world0
   \<and> (\<exists>w'. shh_execute env0 world0 [''cd'', ''/tmp''] = Returns 1 w')
   \<and> (\<exists>w'. shh_execute env0 world0 [''help''] = Returns 1 w')
   \<and> ''ls'' \<notin> set builtin_str \<and> launch_returns env0
   \<and> (\<exists>w'. shh_execute env0 world0 [''ls'', ''-l''] = Returns 1 w')"
proof -
  have "shh_execute env0 world0 [''exit'', ''now''] = Returns 0 world0"
    using shh_execute_stops_iff_exit [of env0 world0 "[''exit'', ''now'']"] by simp
  moreover have "shh_execute env0 world0 [] = Returns 1 world0"
    using shh_execute_stops_iff_exit [of env0 world0 "[]"] by simp
  moreover have "\<exists>w'. shh_execute env0 world0 [''cd'', ''/tmp''] = Returns 1 w'"
    using shh_execute_stops_iff_exit [of env0 world0 "[''cd'', ''/tmp'']"] by simp
  moreover have "\<exists>w'. shh_execute env0 world0 [''help''] = Returns 1 w'"
    using shh_execute_stops_iff_exit [of env0 world0 "[''help'']"] by simp
  moreover have ls: "''ls'' \<notin> set builtin_str \<and> launch_returns env0"
    by (simp add: builtin_str_def launch_returns_def env0_def terminal_def)
  moreover have "\<exists>w'. shh_execute env0 world0 [''ls'', ''-l''] = Returns 1 w'"
    using shh_execute_stops_iff_exit [of env0 world0 "[''ls'', ''-l'']"] ls by simp
  ultimately show ?thesis by blast
qed

text \<open>
  C10: the status that \<^verbatim>\<open>shh_execute\<close> returns is 0 or 1, and each of the two occurs;
  \<^verbatim>\<open>shh_cd\<close>, \<^verbatim>\<open>shh_help\<close> and \<^verbatim>\<open>shh_launch\<close> return 1 only,
  \<^verbatim>\<open>shh_exit\<close> returns 0 only. There is no third status.
\<close>

theorem status_is_continue_or_stop:
  "{s. \<exists>e w args w'. shh_execute e w args = Returns s w'} = {0, 1}
   \<and> {s. \<exists>e w args w'. shh_cd e w args = Returns s w'} = {1}
   \<and> {s. \<exists>e w args w'. shh_help e w args = Returns s w'} = {1}
   \<and> {s. \<exists>e w args w'. shh_exit e w args = Returns s w'} = {0}
   \<and> {s. \<exists>e w args w'. shh_launch e w args = Returns s w'} = {1}"
proof -
  have "shh_execute env0 world0 [] = Returns 1 world0"
    by (simp add: shh_execute_def)
  moreover have "shh_execute env0 world0 [''exit''] = Returns 0 world0"
    by (simp add: shh_execute_cases shh_exit_def)
  ultimately have of_execute: "{s. \<exists>e w args w'. shh_execute e w args = Returns s w'} = {0, 1}"
    using shh_execute_status by blast
  have "shh_cd env0 world0 [''cd''] = Returns 1 (eprint
      (''shh: expected argument to '' @ [CHR 0x22] @ ''cd'' @ [CHR 0x22, newline]) world0)"
    by (simp add: shh_cd_def)
  then have of_cd: "{s. \<exists>e w args w'. shh_cd e w args = Returns s w'} = {1}"
    using shh_cd_status by blast
  have of_help: "{s. \<exists>e w args w'. shh_help e w args = Returns s w'} = {1}"
    by (auto simp: shh_help_prints)
  have of_exit: "{s. \<exists>e w args w'. shh_exit e w args = Returns s w'} = {0}"
    by (auto simp: shh_exit_def)
  have "\<exists>w'. shh_launch env0 world0 [''ls''] = Returns 1 w'"
    by (rule shh_launch_returns) (simp add: launch_returns_def env0_def terminal_def)
  then have of_launch: "{s. \<exists>e w args w'. shh_launch e w args = Returns s w'} = {1}"
    using shh_launch_status by blast
  from of_execute of_cd of_help of_exit of_launch show ?thesis
    by (intro conjI)
qed

lemma strtok_delimiters: "set line \<subseteq> set delim \<Longrightarrow> strtok line delim = None"
  by (auto simp: strtok_def Let_def)

text \<open>
  C6: a line that is empty or made of delimiters only (the whitespace of the
  specification: space, tab, newline, carriage return, bell) has no token: the array is
  the NULL sentinel alone, and \<^verbatim>\<open>shh_execute\<close> on it returns 1, "continue", in the
  state it was called in: nothing is written, no directory changed, no call logged.
  (The first allocation of the tokenizer is taken to succeed.)
\<close>

theorem blank_line_is_no_op:
  assumes "set line \<subseteq> set SHH_TOK_DELIM"
    and "alloc (sizeof_ptr * nat SHH_TOK_BUFSIZE)"
  shows "shh_split_line alloc w line = Returns [None] w
         \<and> argv [None] = []
         \<and> shh_execute e w (argv [None]) = Returns 1 w"
  using assms by (simp add: shh_split_line_def strtok_delimiters shh_execute_def)

theorem blank_line_is_no_op_witness:
  "set ('' '' @ [CHR 0x09, CHR 0x0D] @ ''  '') \<subseteq> set SHH_TOK_DELIM
   \<and> shh_split_line (\<lambda>_. True) world0 ('' '' @ [CHR 0x09, CHR 0x0D] @ ''  '') = Returns [None] world0
   \<and> shh_split_line (\<lambda>_. True) world0 [] = Returns [None] world0
   \<and> shh_execute env0 world0 (argv [None]) = Returns 1 world0"
proof -
  have blank: "set ('' '' @ [CHR 0x09, CHR 0x0D] @ ''  '') \<subseteq> set SHH_TOK_DELIM"
    by (simp add: SHH_TOK_DELIM_def)
  have "set [] \<subseteq> set SHH_TOK_DELIM"
    by simp
  with blank show ?thesis
    using blank_line_is_no_op [of "'' '' @ [CHR 0x09, CHR 0x0D] @ ''  ''" "\<lambda>_. True" world0 env0]
      blank_line_is_no_op [of "[]" "\<lambda>_. True" world0 env0]
    by simp
qed

text \<open>A vertical tab is white space for \<^verbatim>\<open>isspace\<close>, but it is not a delimiter: it
  makes a token.\<close>

lemma vertical_tab_is_a_token:
  "shh_split_line (\<lambda>_. True) world0 [CHR 0x0B] = Returns [Some [CHR 0x0B], None] world0"
  by (simp add: shh_split_line_def strtok_def SHH_TOK_DELIM_def SHH_TOK_BUFSIZE_def)

section \<open>The main loop at the end of the input\<close>

lemma read_line_eof:
  "stdin w = [] \<Longrightarrow> alloc (nat SHH_RL_BUFSIZE) \<Longrightarrow> shh_read_line alloc w = Returns [NUL] w"
  by (simp add: shh_read_line_def)

lemma split_line_empty:
  "alloc (sizeof_ptr * nat SHH_TOK_BUFSIZE) \<Longrightarrow> shh_split_line alloc w [] = Returns [None] w"
  by (simp add: shh_split_line_def strtok_delimiters)

lemma iteration_eof:
  assumes "stdin w = []"
    and "alloc_line e (nat SHH_RL_BUFSIZE)"
    and "alloc_toks e (sizeof_ptr * nat SHH_TOK_BUFSIZE)"
  shows "shh_iteration e w = Returns 1 (print ''> '' w)"
proof -
  from assms(1) have "stdin (print ''> '' w) = []"
    by (simp add: print_def)
  then have "shh_read_line (alloc_line e) (print ''> '' w) = Returns [NUL] (print ''> '' w)"
    using assms(2) by (rule read_line_eof)
  moreover have "c_str [NUL] = []"
    by (simp add: c_str_def)
  ultimately show ?thesis
    using assms(3) by (simp add: shh_iteration_def split_line_empty shh_execute_def)
qed

lemma iteration_eof_cases:
  assumes "stdin w = []"
  shows "shh_iteration e w = Returns 1 (print ''> '' w)
       \<or> (\<exists>w'. shh_iteration e w = Exits EXIT_FAILURE w')"
proof (cases "alloc_line e (nat SHH_RL_BUFSIZE)")
  case False
  then show ?thesis
    by (simp add: shh_iteration_def shh_read_line_def)
next
  case line: True
  from assms have eof: "stdin (print ''> '' w) = []"
    by (simp add: print_def)
  show ?thesis
  proof (cases "alloc_toks e (sizeof_ptr * nat SHH_TOK_BUFSIZE)")
    case True
    with assms line show ?thesis
      by (simp add: iteration_eof)
  next
    case False
    have "c_str [NUL] = []"
      by (simp add: c_str_def)
    with False line eof show ?thesis
      by (simp add: shh_iteration_def read_line_eof shh_split_line_def)
  qed
qed

lemma loop_eof:
  "stdin w = [] \<Longrightarrow>
     shh_loop es w = None \<or> (\<exists>w'. shh_loop es w = Some (Exits EXIT_FAILURE w'))"
proof (induction es arbitrary: w)
  case Nil
  then show ?case by simp
next
  case (Cons e es)
  from Cons.prems have eof: "stdin (print ''> '' w) = []"
    by (simp add: print_def)
  from iteration_eof_cases [OF Cons.prems, of e] show ?case
  proof
    assume "shh_iteration e w = Returns 1 (print ''> '' w)"
    then show ?thesis
      using Cons.IH [OF eof] by simp
  next
    assume "\<exists>w'. shh_iteration e w = Exits EXIT_FAILURE w'"
    then show ?thesis by auto
  qed
qed

lemma loop_eof_running:
  "stdin w = [] \<Longrightarrow>
   \<forall>e \<in> set es. alloc_line e (nat SHH_RL_BUFSIZE) \<and> alloc_toks e (sizeof_ptr * nat SHH_TOK_BUFSIZE) \<Longrightarrow>
     shh_loop es w = None"
proof (induction es arbitrary: w)
  case Nil
  then show ?case by simp
next
  case (Cons e es)
  from Cons.prems(1) have eof: "stdin (print ''> '' w) = []"
    by (simp add: print_def)
  from Cons.prems have "shh_iteration e w = Returns 1 (print ''> '' w)"
    by (simp add: iteration_eof)
  then show ?case
    using Cons.IH [OF eof] Cons.prems(2) by simp
qed

lemma main_status: "main es w = Some (Returns s w') \<Longrightarrow> s = EXIT_SUCCESS"
  by (auto simp: main_def and_then_Returns)

text \<open>
  C2, as the code has it: at the end of standard input, with no \<open>exit\<close> given, the
  main loop does not terminate. While the first allocations succeed, every iteration
  writes the prompt, reads the empty line, finds no token and continues, so no number
  of iterations ends the loop. The status of the interpreter is success whenever
  \<^verbatim>\<open>main\<close> returns, which it does when an iteration returns 0, "stop".
\<close>

theorem main_at_end_of_input:
  "(stdin w = [] \<and>
      (\<forall>e \<in> set es. alloc_line e (nat SHH_RL_BUFSIZE) \<and>
         alloc_toks e (sizeof_ptr * nat SHH_TOK_BUFSIZE)) \<longrightarrow>
      main es w = None)
   \<and> (stdin w = [] \<and> alloc_line e (nat SHH_RL_BUFSIZE) \<and>
        alloc_toks e (sizeof_ptr * nat SHH_TOK_BUFSIZE) \<longrightarrow>
      shh_iteration e w = Returns 1 (print ''> '' w))
   \<and> (\<forall>s w'. main es w = Some (Returns s w') \<longrightarrow> s = EXIT_SUCCESS)
   \<and> (\<forall>w'. shh_iteration e w = Returns 0 w' \<longrightarrow>
        main (e # es) w = Some (Returns EXIT_SUCCESS w'))"
proof -
  have "stdin w = [] \<and>
      (\<forall>e \<in> set es. alloc_line e (nat SHH_RL_BUFSIZE) \<and>
         alloc_toks e (sizeof_ptr * nat SHH_TOK_BUFSIZE)) \<longrightarrow>
      main es w = None"
    by (simp add: main_def loop_eof_running)
  moreover have "stdin w = [] \<and> alloc_line e (nat SHH_RL_BUFSIZE) \<and>
        alloc_toks e (sizeof_ptr * nat SHH_TOK_BUFSIZE) \<longrightarrow>
      shh_iteration e w = Returns 1 (print ''> '' w)"
    by (simp add: iteration_eof)
  moreover have "\<forall>s w'. main es w = Some (Returns s w') \<longrightarrow> s = EXIT_SUCCESS"
    using main_status by blast
  moreover have "\<forall>w'. shh_iteration e w = Returns 0 w' \<longrightarrow>
        main (e # es) w = Some (Returns EXIT_SUCCESS w')"
    by (simp add: main_def)
  ultimately show ?thesis
    by (intro conjI)
qed

text \<open>
  C2 as stated fails: with standard input at its end, the loop is still running after
  any number of iterations, and under no environment does \<^verbatim>\<open>main\<close> return success.
\<close>

theorem main_at_end_of_input_counterexample:
  "stdin world0 = []
   \<and> (\<forall>n. main (replicate n env0) world0 = None)
   \<and> \<not> (\<exists>es w'. main es world0 = Some (Returns EXIT_SUCCESS w'))"
proof -
  have eof: "stdin world0 = []"
    by (simp add: world0_def)
  have "main (replicate n env0) world0 = None" for n
    using loop_eof_running [OF eof, of "replicate n env0"]
    by (simp add: main_def env0_def)
  moreover have "main es world0 \<noteq> Some (Returns EXIT_SUCCESS w')" for es w'
    using loop_eof [OF eof, of es] by (auto simp: main_def)
  ultimately show ?thesis
    using eof by blast
qed

lemma iteration_exit:
  "shh_iteration env0 (world0\<lparr>stdin := ''exit'' @ [newline]\<rparr>) =
     Returns 0 (world0\<lparr>stdout := ''> ''\<rparr>)"
  by (simp add: shh_iteration_def shh_read_line_def env0_def world0_def print_def newline_def
      SHH_RL_BUFSIZE_def c_str_def NUL_def shh_split_line_def strtok_def SHH_TOK_DELIM_def
      SHH_TOK_BUFSIZE_def shh_execute_cases shh_exit_def)

theorem main_at_end_of_input_witness:
  "stdin world0 = []
   \<and> main [env0, env0, env0] world0 = None
   \<and> shh_iteration env0 world0 = Returns 1 (world0\<lparr>stdout := ''> ''\<rparr>)
   \<and> main [env0] (world0\<lparr>stdin := ''exit'' @ [newline]\<rparr>) =
       Some (Returns EXIT_SUCCESS (world0\<lparr>stdout := ''> ''\<rparr>))"
proof -
  have eof: "stdin world0 = []"
    by (simp add: world0_def)
  have allocs: "alloc_line env0 (nat SHH_RL_BUFSIZE) \<and>
      alloc_toks env0 (sizeof_ptr * nat SHH_TOK_BUFSIZE)"
    by (simp add: env0_def)
  have "main [env0, env0, env0] world0 = None"
    using main_at_end_of_input [of world0 "[env0, env0, env0]"] eof allocs by simp
  moreover have "shh_iteration env0 world0 = Returns 1 (print ''> '' world0)"
    using main_at_end_of_input [of world0 _ env0] eof allocs by blast
  then have "shh_iteration env0 world0 = Returns 1 (world0\<lparr>stdout := ''> ''\<rparr>)"
    by (simp add: print_def world0_def)
  moreover have "main [env0] (world0\<lparr>stdin := ''exit'' @ [newline]\<rparr>) =
       Some (Returns EXIT_SUCCESS (world0\<lparr>stdout := ''> ''\<rparr>))"
    using main_at_end_of_input [of "world0\<lparr>stdin := ''exit'' @ [newline]\<rparr>" "[]" env0]
      iteration_exit by simp
  ultimately show ?thesis
    using eof by blast
qed

end
